theory Spec2Isabelle
  imports Main
begin

section \<open>The event bus of ex3.py\<close>

subsection \<open>Raised signals\<close>

text \<open>
  Whatever a subscriber, a filter or the console raises is a value. The bus
  catches with \<^verbatim>\<open>except Exception as e\<close> and then calls \<^verbatim>\<open>str(e)\<close>, so the model
  keeps apart what these two look at. \<open>Exception si st\<close> is an instance of
  \<^verbatim>\<open>Exception\<close>: \<open>si\<close> says whether it is an instance of \<^verbatim>\<open>StopIteration\<close>, and
  \<open>st\<close> is what \<^verbatim>\<open>str(e)\<close> does, returning the string \<open>m\<close> (\<open>Inr m\<close>) or raising
  \<open>x\<close> (\<open>Inl x\<close>). \<open>BaseExceptionOnly n\<close> is an instance of \<^verbatim>\<open>BaseException\<close>
  that is not an \<^verbatim>\<open>Exception\<close> (KeyboardInterrupt, SystemExit,
  asyncio.CancelledError), named \<open>n\<close>.
\<close>

datatype raised = Exception bool "raised + string" | BaseExceptionOnly string

subsection \<open>Events, subscribers, the bus\<close>

text \<open>
  \<^verbatim>\<open>@dataclass class Event: name: str; data: Any = None\<close>. The field
  \<open>etype\<close> is \<^verbatim>\<open>type(event)\<close>, the class of the object; \<open>'c\<close> is the type of
  classes and \<open>'d\<close> the type of payloads.
\<close>

record ('c, 'd) event =
  etype :: 'c
  name :: string
  data :: 'd

text \<open>
  An \<^verbatim>\<open>EventSubscriber\<close> object: \<open>sid\<close> is the identity of the object,
  \<open>can_handle\<close> and \<open>handle\<close> are its two methods. Either may raise.
  \<^verbatim>\<open>handle\<close> is a coroutine the bus awaits: while it runs, it (or whatever runs
  during the await) may call the bus. Its value here is the list of the calls of
  \<^verbatim>\<open>subscribe\<close> and \<^verbatim>\<open>add_filter\<close> made on the bus in that time, in order, and
  how it ends. What else it does is its own business and is represented by the entry
  of the call in the log below. \<^verbatim>\<open>can_handle\<close> and the filter functions are
  plain synchronous tests returning \<^verbatim>\<open>bool\<close> and make no call on the bus.
\<close>

datatype ('c, 'd) subscriber =
    Subscriber (sid: nat)
      (can_handle: "('c, 'd) event \<Rightarrow> raised + bool")
      (handle: "('c, 'd) event \<Rightarrow> ('c, 'd) bus_call list \<times> (raised + unit)")
  and ('c, 'd) bus_call =
    Subscribe 'c "('c, 'd) subscriber"
  | AddFilter 'c "('c, 'd) event \<Rightarrow> raised + bool"

type_synonym ('c, 'd) filter_func = "('c, 'd) event \<Rightarrow> raised + bool"

text \<open>
  \<^verbatim>\<open>print\<close> writes a line to \<^verbatim>\<open>sys.stdout\<close>, and that may fail (a closed or
  broken stream, a character the encoding of the stream lacks): \<open>None\<close> is the
  line written, \<open>Some x\<close> is \<open>x\<close> raised.
\<close>

type_synonym stdout = "string \<Rightarrow> raised option"

text \<open>
  \<^verbatim>\<open>self._subscribers: Dict[Type[Event], List[EventSubscriber]]\<close> and
  \<^verbatim>\<open>self._filters: Dict[Type[Event], List[Callable[[Event], bool]]]\<close>.
\<close>

record ('c, 'd) event_bus =
  subscribers :: "'c \<rightharpoonup> ('c, 'd) subscriber list"
  filters :: "'c \<rightharpoonup> ('c, 'd) filter_func list"

definition EventBus_init :: "('c, 'd) event_bus" where
  "EventBus_init = \<lparr>subscribers = Map.empty, filters = Map.empty\<rparr>"

subsection \<open>The log of one dispatch\<close>

text \<open>
  What \<^verbatim>\<open>publish\<close> does, in order: the calls it makes and the line it prints.
  \<open>CanHandle i\<close> and \<open>Handle i\<close> are calls of the two methods of the subscriber
  with identity \<open>i\<close>; \<open>Filter k\<close> is a call of the \<open>k\<close>-th filter function of the
  list registered for the type of the event; \<open>Print l\<close> is a line written to stdout.
\<close>

datatype effect = CanHandle nat | Filter nat | Handle nat | Print string

subsection \<open>Registration\<close>

text \<open>
  \<^verbatim>\<open>if event_type not in self._subscribers: self._subscribers[event_type] = []\<close>
  \<^verbatim>\<open>self._subscribers[event_type].append(subscriber)\<close>
\<close>

definition subscribe ::
  "'c \<Rightarrow> ('c, 'd) subscriber \<Rightarrow> ('c, 'd) event_bus \<Rightarrow> ('c, 'd) event_bus" where
  "subscribe event_type subscriber bus =
     (case subscribers bus event_type of
        None \<Rightarrow> bus\<lparr>subscribers := (subscribers bus)(event_type \<mapsto> [] @ [subscriber])\<rparr>
      | Some l \<Rightarrow> bus\<lparr>subscribers := (subscribers bus)(event_type \<mapsto> l @ [subscriber])\<rparr>)"

definition add_filter ::
  "'c \<Rightarrow> ('c, 'd) filter_func \<Rightarrow> ('c, 'd) event_bus \<Rightarrow> ('c, 'd) event_bus" where
  "add_filter event_type filter_func bus =
     (case filters bus event_type of
        None \<Rightarrow> bus\<lparr>filters := (filters bus)(event_type \<mapsto> [] @ [filter_func])\<rparr>
      | Some l \<Rightarrow> bus\<lparr>filters := (filters bus)(event_type \<mapsto> l @ [filter_func])\<rparr>)"

text \<open>The calls a handler makes on the bus, carried out in order.\<close>

fun apply_call :: "('c, 'd) event_bus \<Rightarrow> ('c, 'd) bus_call \<Rightarrow> ('c, 'd) event_bus" where
  "apply_call bus (Subscribe c s) = subscribe c s bus"
| "apply_call bus (AddFilter c f) = add_filter c f bus"

definition apply_calls :: "('c, 'd) event_bus \<Rightarrow> ('c, 'd) bus_call list \<Rightarrow> ('c, 'd) event_bus" where
  "apply_calls bus calls = foldl apply_call bus calls"

subsection \<open>Deciding delivery\<close>

text \<open>
  A \<^verbatim>\<open>StopIteration\<close> raised inside the body of a generator leaves the generator
  as \<^verbatim>\<open>RuntimeError("generator raised StopIteration")\<close>; anything else leaves it
  as it is.
\<close>

fun generator_raise :: "raised \<Rightarrow> raised" where
  "generator_raise (Exception True st) = Exception False (Inr ''generator raised StopIteration'')"
| "generator_raise x = x"

text \<open>
  \<^verbatim>\<open>all(filter_func(event) for filter_func in self._filters[event_type])\<close>:
  the generator is consumed from the left, \<^verbatim>\<open>all\<close> stops at the first false
  value, and a filter that raises ends the evaluation with what leaves the
  generator. The number is the position of the head of the list in the registered
  list.
\<close>

fun all_filters ::
  "('c, 'd) filter_func list \<Rightarrow> nat \<Rightarrow> ('c, 'd) event \<Rightarrow> effect list \<times> (raised + bool)" where
  "all_filters [] k e = ([], Inr True)"
| "all_filters (f # fs) k e =
     (case f e of
        Inl x \<Rightarrow> ([Filter k], Inl (generator_raise x))
      | Inr b \<Rightarrow>
          if b then (let (t, r) = all_filters fs (Suc k) e in (Filter k # t, r))
          else ([Filter k], Inr False))"

text \<open>\<^verbatim>\<open>EventBus._should_handle\<close>.\<close>

definition should_handle ::
  "('c, 'd) event_bus \<Rightarrow> ('c, 'd) event \<Rightarrow> ('c, 'd) subscriber
     \<Rightarrow> effect list \<times> (raised + bool)" where
  "should_handle bus e s =
     (case can_handle s e of
        Inl x \<Rightarrow> ([CanHandle (sid s)], Inl x)
      | Inr ok \<Rightarrow>
          if \<not> ok then ([CanHandle (sid s)], Inr False)
          else (case filters bus (etype e) of
                  Some fs \<Rightarrow> (let (t, r) = all_filters fs 0 e in (CanHandle (sid s) # t, r))
                | None \<Rightarrow> ([CanHandle (sid s)], Inr True)))"

subsection \<open>Publishing\<close>

text \<open>
  The suite of the \<^verbatim>\<open>try\<close>:
  \<^verbatim>\<open>if self._should_handle(event, subscriber): await subscriber.handle(event)\<close>.
  The result is the bus after the calls made on it while \<^verbatim>\<open>handle\<close> was awaited,
  the log, and how the suite ends.
\<close>

definition publish_try ::
  "('c, 'd) event_bus \<Rightarrow> ('c, 'd) event \<Rightarrow> ('c, 'd) subscriber
     \<Rightarrow> ('c, 'd) event_bus \<times> effect list \<times> (raised + unit)" where
  "publish_try bus e s =
     (let (t, r) = should_handle bus e s in
      case r of
        Inl x \<Rightarrow> (bus, t, Inl x)
      | Inr go \<Rightarrow>
          if go then (let (calls, r') = handle s e
                      in (apply_calls bus calls, t @ [Handle (sid s)], r'))
          else (bus, t, Inr ()))"

text \<open>
  The body of the loop, the \<^verbatim>\<open>try\<close> with its handler
  \<^verbatim>\<open>except Exception as e: print(f"Error handling event {event.name}: {str(e)}")\<close>.
  An \<open>Exception\<close> is caught; anything else leaves the statement. Inside the
  handler nothing is protected: what \<^verbatim>\<open>str(e)\<close> raises and what \<^verbatim>\<open>print\<close> raises
  leaves the statement too, whatever its class. \<open>error_line\<close> is the formatted string.
\<close>

definition error_line :: "('c, 'd) event \<Rightarrow> string \<Rightarrow> string" where
  "error_line e m = ''Error handling event '' @ name e @ '': '' @ m"

definition publish_body ::
  "stdout \<Rightarrow> ('c, 'd) event_bus \<Rightarrow> ('c, 'd) event \<Rightarrow> ('c, 'd) subscriber
     \<Rightarrow> ('c, 'd) event_bus \<times> effect list \<times> (raised + unit)" where
  "publish_body out bus e s =
     (let (bus', t, r) = publish_try bus e s in
      case r of
        Inl (Exception si st) \<Rightarrow>
          (case st of
             Inl y \<Rightarrow> (bus', t, Inl y)
           | Inr m \<Rightarrow>
               (case out (error_line e m) of
                  None \<Rightarrow> (bus', t @ [Print (error_line e m)], Inr ())
                | Some y \<Rightarrow> (bus', t, Inl y)))
      | Inl (BaseExceptionOnly n) \<Rightarrow> (bus', t, Inl (BaseExceptionOnly n))
      | Inr u \<Rightarrow> (bus', t, Inr ()))"

text \<open>
  \<^verbatim>\<open>for subscriber in self._subscribers[event_type]: ...\<close>, from its \<open>i\<close>-th
  iteration on. The loop runs over the list object itself: the iterator compares its
  index with the length the list has at that moment, so a subscriber appended to the
  list during the dispatch is attempted in the same dispatch. \<^verbatim>\<open>subscribe\<close> appends
  to the object stored under the key, so the list the iterator sees is the one the
  bus holds under the type of the event. Nothing bounds the number of iterations:
  the value is \<open>None\<close> when the loop does not end.
\<close>

partial_function (option) publish_loop ::
  "stdout \<Rightarrow> ('c, 'd) event_bus \<Rightarrow> ('c, 'd) event \<Rightarrow> nat
     \<Rightarrow> (('c, 'd) event_bus \<times> effect list \<times> (raised + unit)) option" where
  "publish_loop out bus e i =
     (case subscribers bus (etype e) of
        None \<Rightarrow> Some (bus, [], Inr ())
      | Some l \<Rightarrow>
          if i < length l then
            (case publish_body out bus e (l ! i) of
               (bus', t, Inl x) \<Rightarrow> Some (bus', t, Inl x)
             | (bus', t, Inr u) \<Rightarrow>
                 Option.bind (publish_loop out bus' e (Suc i))
                   (\<lambda>(bus'', t', r'). Some (bus'', t @ t', r')))
          else Some (bus, [], Inr ()))"

text \<open>
  \<^verbatim>\<open>EventBus.publish\<close>. When the call ends, the result is the bus after the call,
  the log of the call, and how the call ends: \<open>Inr ()\<close> is the return of \<^verbatim>\<open>None\<close>
  (the function has no \<^verbatim>\<open>return\<close> with a value), \<open>Inl x\<close> is \<open>x\<close> raised to the
  caller. The function itself assigns to neither dictionary.
\<close>

definition publish ::
  "stdout \<Rightarrow> ('c, 'd) event_bus \<Rightarrow> ('c, 'd) event
     \<Rightarrow> (('c, 'd) event_bus \<times> effect list \<times> (raised + unit)) option" where
  "publish out bus e =
     (case subscribers bus (etype e) of
        None \<Rightarrow> Some (bus, [], Inr ())
      | Some ss \<Rightarrow> publish_loop out bus e 0)"

subsection \<open>Reading the two dictionaries\<close>

text \<open>
  The list stored under a key, and no subscriber (no filter) at all when the key is
  absent.
\<close>

definition registered :: "('c, 'd) event_bus \<Rightarrow> 'c \<Rightarrow> ('c, 'd) subscriber list" where
  "registered bus c = (case subscribers bus c of None \<Rightarrow> [] | Some l \<Rightarrow> l)"

definition registered_filters :: "('c, 'd) event_bus \<Rightarrow> 'c \<Rightarrow> ('c, 'd) filter_func list" where
  "registered_filters bus c = (case filters bus c of None \<Rightarrow> [] | Some l \<Rightarrow> l)"

text \<open>A subscriber is accepted for an event when \<^verbatim>\<open>_should_handle\<close> returns \<^verbatim>\<open>True\<close> for it.\<close>

definition accepted :: "('c, 'd) event_bus \<Rightarrow> ('c, 'd) event \<Rightarrow> ('c, 'd) subscriber \<Rightarrow> bool" where
  "accepted bus e s = (snd (should_handle bus e s) = Inr True)"

text \<open>
  The subscribers whose \<^verbatim>\<open>handle\<close>, and those whose \<^verbatim>\<open>can_handle\<close>, a log calls,
  in order.
\<close>

fun handle_calls :: "effect list \<Rightarrow> nat list" where
  "handle_calls [] = []"
| "handle_calls (Handle i # t) = i # handle_calls t"
| "handle_calls (x # t) = handle_calls t"

fun can_handle_calls :: "effect list \<Rightarrow> nat list" where
  "can_handle_calls [] = []"
| "can_handle_calls (CanHandle i # t) = i # can_handle_calls t"
| "can_handle_calls (x # t) = can_handle_calls t"

subsection \<open>The state of a dispatch\<close>

text \<open>
  The bus and the log at the moment the loop of \<^verbatim>\<open>publish\<close>, started on \<open>bus\<close>,
  gets to its \<open>i\<close>-th iteration: \<open>None\<close> when it does not get there, because the
  list ended or an earlier iteration raised.
\<close>

primrec dispatch_to ::
  "stdout \<Rightarrow> ('c, 'd) event_bus \<Rightarrow> ('c, 'd) event \<Rightarrow> nat
     \<Rightarrow> (('c, 'd) event_bus \<times> effect list) option" where
  "dispatch_to out bus e 0 = Some (bus, [])"
| "dispatch_to out bus e (Suc i) =
     (case dispatch_to out bus e i of
        None \<Rightarrow> None
      | Some (b, t) \<Rightarrow>
          (case subscribers b (etype e) of
             None \<Rightarrow> None
           | Some l \<Rightarrow>
               if i < length l then
                 (case publish_body out b e (l ! i) of
                    (b', t', Inl x) \<Rightarrow> None
                  | (b', t', Inr u) \<Rightarrow> Some (b', t @ t'))
               else None))"



definition extends :: "('c, 'd) event_bus \<Rightarrow> ('c, 'd) event_bus \<Rightarrow> bool" where
  "extends b b' =
     ((\<forall>c. \<exists>more. registered b' c = registered b c @ more)
      \<and> (\<forall>c. \<exists>more. registered_filters b' c = registered_filters b c @ more)
      \<and> (\<forall>c. subscribers b c \<noteq> None \<longrightarrow> subscribers b' c \<noteq> None))"

definition agree :: "('c, 'd) event \<Rightarrow> ('c, 'd) event_bus \<Rightarrow> ('c, 'd) event_bus \<Rightarrow> bool" where
  "agree e b1 b2 = (subscribers b1 = subscribers b2 \<and> filters b1 (etype e) = filters b2 (etype e))"

subsection \<open>Outcomes of one candidate\<close>

text \<open>
  The entry a report of the dispatch would hold for one candidate, in the words
  of the specification (Delivered, Skipped with its reason, Failed with the
  error), read off the calls the code makes for that candidate: the subscriber's
  own test, then the filters of the type of the event, then \<^verbatim>\<open>handle\<close>.
  Whatever one of the three raises makes the entry \<open>Failed\<close>, with the error as
  it reaches the \<^verbatim>\<open>except\<close> clause. \<open>attempt_end\<close> is how the suite of the
  \<^verbatim>\<open>try\<close> ends for an entry.
\<close>

datatype skip_reason = SelfRejected | Filtered

datatype outcome = Delivered | Skipped skip_reason | Failed raised

definition report_entry ::
  "('c, 'd) event_bus \<Rightarrow> ('c, 'd) event \<Rightarrow> ('c, 'd) subscriber \<Rightarrow> outcome" where
  "report_entry bus e s =
     (case can_handle s e of
        Inl x \<Rightarrow> Failed x
      | Inr ok \<Rightarrow>
          if \<not> ok then Skipped SelfRejected
          else (case snd (all_filters (registered_filters bus (etype e)) 0 e) of
                  Inl x \<Rightarrow> Failed x
                | Inr pass \<Rightarrow>
                    if \<not> pass then Skipped Filtered
                    else (case snd (handle s e) of Inl x \<Rightarrow> Failed x | Inr u \<Rightarrow> Delivered)))"

fun attempt_end :: "outcome \<Rightarrow> raised + unit" where
  "attempt_end (Failed x) = Inl x"
| "attempt_end out = Inr ()"

subsection \<open>The sample events, handlers and set-up of the source\<close>

text \<open>
  \<^verbatim>\<open>class UserActionEvent(Event)\<close>, \<^verbatim>\<open>class SystemAlertEvent(Event)\<close>,
  \<^verbatim>\<open>class DataChangeEvent(Event)\<close>: three classes directly under \<^verbatim>\<open>Event\<close>.
\<close>

datatype cls = Event | UserActionEvent | SystemAlertEvent | DataChangeEvent

fun base :: "cls \<Rightarrow> cls option" where
  "base Event = None"
| "base UserActionEvent = Some Event"
| "base SystemAlertEvent = Some Event"
| "base DataChangeEvent = Some Event"

definition issubclass :: "cls \<Rightarrow> cls \<Rightarrow> bool" where
  "issubclass c d = (c = d \<or> base c = Some d)"

text \<open>
  The payloads the source passes: \<^verbatim>\<open>None\<close>, integers, strings, dictionaries with
  string keys (a list of the items, each key once).
\<close>

datatype pyval = PyNone | PyInt int | PyStr string | PyDict "(string \<times> pyval) list"

fun type_name :: "pyval \<Rightarrow> string" where
  "type_name PyNone = ''NoneType''"
| "type_name (PyInt n) = ''int''"
| "type_name (PyStr s) = ''str''"
| "type_name (PyDict kvs) = ''dict''"

definition quoted :: "string \<Rightarrow> string" where
  "quoted s = [CHR 0x27] @ s @ [CHR 0x27]"

text \<open>
  \<^verbatim>\<open>LoggingHandler\<close>: \<^verbatim>\<open>can_handle\<close> returns \<^verbatim>\<open>True\<close>. The argument is the identity
  of the new object. None of the three handlers of the source calls the bus.
\<close>

definition LoggingHandler :: "nat \<Rightarrow> (cls, pyval) subscriber" where
  "LoggingHandler i = Subscriber i (\<lambda>e. Inr True) (\<lambda>e. ([], Inr ()))"

text \<open>\<^verbatim>\<open>UserActionHandler\<close>: \<^verbatim>\<open>isinstance(event, UserActionEvent)\<close>.\<close>

definition UserActionHandler :: "nat \<Rightarrow> (cls, pyval) subscriber" where
  "UserActionHandler i =
     Subscriber i (\<lambda>e. Inr (issubclass (etype e) UserActionEvent)) (\<lambda>e. ([], Inr ()))"

text \<open>\<^verbatim>\<open>AlertHandler\<close>: \<^verbatim>\<open>isinstance(event, SystemAlertEvent)\<close>.\<close>

definition AlertHandler :: "nat \<Rightarrow> (cls, pyval) subscriber" where
  "AlertHandler i =
     Subscriber i (\<lambda>e. Inr (issubclass (etype e) SystemAlertEvent)) (\<lambda>e. ([], Inr ()))"

text \<open>
  The filter of \<^verbatim>\<open>main\<close>, \<^verbatim>\<open>lambda e: e.data.get('priority', 0) > 3\<close>. A payload
  that is no dictionary has no \<^verbatim>\<open>get\<close> (AttributeError); a priority that is no
  integer does not compare with 3 (TypeError). Both are instances of \<^verbatim>\<open>Exception\<close>;
  the strings are their \<^verbatim>\<open>str\<close>.
\<close>

definition priority_filter :: "(cls, pyval) filter_func" where
  "priority_filter e =
     (case data e of
        PyDict kvs \<Rightarrow>
          (case (case map_of kvs ''priority'' of None \<Rightarrow> PyInt 0 | Some v \<Rightarrow> v) of
             PyInt n \<Rightarrow> Inr (n > 3)
           | v \<Rightarrow> Inl (Exception False
                        (Inr (quoted ''>'' @ '' not supported between instances of ''
                                @ quoted (type_name v) @ '' and '' @ quoted ''int''))))
      | v \<Rightarrow> Inl (Exception False
                   (Inr (quoted (type_name v) @ '' object has no attribute ''
                           @ quoted ''get''))))"

text \<open>
  The bus \<^verbatim>\<open>main\<close> builds: \<^verbatim>\<open>bus.subscribe(Event, LoggingHandler())\<close> (with the
  comment "Logs all events"), \<^verbatim>\<open>bus.subscribe(UserActionEvent, UserActionHandler())\<close>,
  \<^verbatim>\<open>bus.subscribe(SystemAlertEvent, AlertHandler())\<close> and
  \<^verbatim>\<open>bus.add_filter(SystemAlertEvent, ...)\<close>.
\<close>

definition main_bus :: "(cls, pyval) event_bus" where
  "main_bus =
     add_filter SystemAlertEvent priority_filter
       (subscribe SystemAlertEvent (AlertHandler 3)
         (subscribe UserActionEvent (UserActionHandler 2)
           (subscribe Event (LoggingHandler 1) EventBus_init)))"

text \<open>The four events \<^verbatim>\<open>main\<close> publishes.\<close>

definition login :: "(cls, pyval) event" where
  "login = \<lparr>etype = UserActionEvent, name = ''login'',
            data = PyDict [(''username'', PyStr ''alice'')]\<rparr>"

definition cpu_high :: "(cls, pyval) event" where
  "cpu_high = \<lparr>etype = SystemAlertEvent, name = ''cpu_high'',
               data = PyDict [(''priority'', PyInt 5)]\<rparr>"

definition memory_low :: "(cls, pyval) event" where
  "memory_low = \<lparr>etype = SystemAlertEvent, name = ''memory_low'',
                 data = PyDict [(''priority'', PyInt 2)]\<rparr>"

definition user_updated :: "(cls, pyval) event" where
  "user_updated = \<lparr>etype = DataChangeEvent, name = ''user_updated'',
                   data = PyDict [(''id'', PyInt 123)]\<rparr>"

subsection \<open>Further consoles, subscribers, filters and events\<close>

text \<open>
  A console that writes every line, and \<^verbatim>\<open>sys.stdout\<close> after it has been closed:
  \<^verbatim>\<open>print\<close> raises \<^verbatim>\<open>ValueError("I/O operation on closed file.")\<close>.
\<close>

definition console :: stdout where
  "console line = None"

definition closed_stdout :: stdout where
  "closed_stdout line = Some (Exception False (Inr ''I/O operation on closed file.''))"

text \<open>
  The source has no subscriber whose \<^verbatim>\<open>handle\<close> raises or calls the bus.
  \<open>FailingHandler i m\<close> accepts every event and its \<^verbatim>\<open>handle\<close> does
  \<^verbatim>\<open>raise RuntimeError(m)\<close>. \<open>InterruptedHandler i\<close> accepts every event and
  its \<^verbatim>\<open>handle\<close> does \<^verbatim>\<open>raise KeyboardInterrupt()\<close>. \<open>UnprintableHandler i\<close>
  accepts every event and its \<^verbatim>\<open>handle\<close> raises an exception whose \<^verbatim>\<open>__str__\<close>
  does \<^verbatim>\<open>raise TypeError("no str")\<close>. \<open>SubscribingHandler i s\<close> accepts
  every event and its \<^verbatim>\<open>handle\<close> does \<^verbatim>\<open>bus.subscribe(Event, s)\<close>.
\<close>

definition FailingHandler :: "nat \<Rightarrow> string \<Rightarrow> (cls, pyval) subscriber" where
  "FailingHandler i m =
     Subscriber i (\<lambda>e. Inr True) (\<lambda>e. ([], Inl (Exception False (Inr m))))"

definition InterruptedHandler :: "nat \<Rightarrow> (cls, pyval) subscriber" where
  "InterruptedHandler i =
     Subscriber i (\<lambda>e. Inr True) (\<lambda>e. ([], Inl (BaseExceptionOnly ''KeyboardInterrupt'')))"

definition UnprintableHandler :: "nat \<Rightarrow> (cls, pyval) subscriber" where
  "UnprintableHandler i =
     Subscriber i (\<lambda>e. Inr True)
       (\<lambda>e. ([], Inl (Exception False (Inl (Exception False (Inr ''no str''))))))"

definition SubscribingHandler :: "nat \<Rightarrow> (cls, pyval) subscriber \<Rightarrow> (cls, pyval) subscriber" where
  "SubscribingHandler i s = Subscriber i (\<lambda>e. Inr True) (\<lambda>e. ([Subscribe Event s], Inr ()))"

text \<open>\<^verbatim>\<open>lambda e: False\<close>, and a filter that does \<^verbatim>\<open>raise StopIteration\<close>.\<close>

definition reject_all :: "(cls, pyval) filter_func" where
  "reject_all e = Inr False"

definition stop_filter :: "(cls, pyval) filter_func" where
  "stop_filter e = Inl (Exception True (Inr []))"

text \<open>\<^verbatim>\<open>Event("tick")\<close> and \<^verbatim>\<open>SystemAlertEvent("no_payload")\<close>: the payload is \<^verbatim>\<open>None\<close>.\<close>

definition tick :: "(cls, pyval) event" where
  "tick = \<lparr>etype = Event, name = ''tick'', data = PyNone\<rparr>"

definition no_payload :: "(cls, pyval) event" where
  "no_payload = \<lparr>etype = SystemAlertEvent, name = ''no_payload'', data = PyNone\<rparr>"

text \<open>Three subscribers of \<^verbatim>\<open>Event\<close>, the second failing.\<close>

definition trio_bus :: "(cls, pyval) event_bus" where
  "trio_bus =
     subscribe Event (LoggingHandler 3)
       (subscribe Event (FailingHandler 2 ''boom'')
         (subscribe Event (LoggingHandler 1) EventBus_init))"

section \<open>Properties\<close>

subsection \<open>Unfolding the definitions\<close>

lemmas bus_defs = main_bus_def trio_bus_def subscribe_def add_filter_def EventBus_init_def
  apply_calls_def

lemmas sub_defs = LoggingHandler_def UserActionHandler_def AlertHandler_def FailingHandler_def
  InterruptedHandler_def UnprintableHandler_def SubscribingHandler_def issubclass_def

lemmas ev_defs = login_def cpu_high_def memory_low_def user_updated_def tick_def no_payload_def

lemmas run_defs = publish_def publish_loop.simps publish_body_def publish_try_def
  should_handle_def error_line_def

subsection \<open>The functions of the model without their local bindings\<close>

lemma should_handle_unfold:
  "should_handle bus e s =
     (case can_handle s e of
        Inl x \<Rightarrow> ([CanHandle (sid s)], Inl x)
      | Inr ok \<Rightarrow>
          if \<not> ok then ([CanHandle (sid s)], Inr False)
          else (CanHandle (sid s) # fst (all_filters (registered_filters bus (etype e)) 0 e),
                snd (all_filters (registered_filters bus (etype e)) 0 e)))"
  by (simp add: should_handle_def registered_filters_def case_prod_beta
      split: sum.splits option.splits)

lemma publish_try_unfold:
  "publish_try bus e s =
     (case snd (should_handle bus e s) of
        Inl x \<Rightarrow> (bus, fst (should_handle bus e s), Inl x)
      | Inr go \<Rightarrow>
          if \<not> go then (bus, fst (should_handle bus e s), Inr ())
          else (apply_calls bus (fst (handle s e)),
                fst (should_handle bus e s) @ [Handle (sid s)], snd (handle s e)))"
  by (simp add: publish_try_def case_prod_beta split: sum.splits)

lemma publish_body_unfold:
  "publish_body out bus e s =
     (case snd (snd (publish_try bus e s)) of
        Inl (Exception si st) \<Rightarrow>
          (case st of
             Inl y \<Rightarrow> (fst (publish_try bus e s), fst (snd (publish_try bus e s)), Inl y)
           | Inr m \<Rightarrow>
               (case out (error_line e m) of
                  None \<Rightarrow> (fst (publish_try bus e s),
                            fst (snd (publish_try bus e s)) @ [Print (error_line e m)], Inr ())
                | Some y \<Rightarrow> (fst (publish_try bus e s), fst (snd (publish_try bus e s)), Inl y)))
      | Inl (BaseExceptionOnly n) \<Rightarrow>
          (fst (publish_try bus e s), fst (snd (publish_try bus e s)), Inl (BaseExceptionOnly n))
      | Inr u \<Rightarrow> (fst (publish_try bus e s), fst (snd (publish_try bus e s)), Inr ()))"
  by (simp add: publish_body_def case_prod_beta split: sum.splits raised.splits option.splits)

lemma publish_body_bus:
  "fst (publish_body out bus e s)
     = (if accepted bus e s then apply_calls bus (fst (handle s e)) else bus)"
  by (simp add: publish_body_unfold publish_try_unfold accepted_def
      split: sum.splits raised.splits option.splits)

lemma publish_loop_step:
  assumes "subscribers bus (etype e) = Some l" and "i < length l"
  shows "publish_loop out bus e i =
     (case snd (snd (publish_body out bus e (l ! i))) of
        Inl x \<Rightarrow> Some (publish_body out bus e (l ! i))
      | Inr u \<Rightarrow>
          Option.bind (publish_loop out (fst (publish_body out bus e (l ! i))) e (Suc i))
            (\<lambda>(b, t, r). Some (b, fst (snd (publish_body out bus e (l ! i))) @ t, r)))"
  using assms
  by (subst publish_loop.simps) (auto simp add: case_prod_beta prod_eq_iff split: sum.splits)

lemma publish_loop_end:
  assumes "\<not> i < length (registered bus (etype e))"
  shows "publish_loop out bus e i = Some (bus, [], Inr ())"
  using assms
  by (subst publish_loop.simps) (simp add: registered_def split: option.splits)

lemma publish_start:
  "publish out bus e = publish_loop out bus e 0"
  by (simp add: publish_def publish_loop_end registered_def split: option.splits)

subsection \<open>How the bus changes\<close>

lemma extends_refl: "extends b b"
  by (simp add: extends_def)

lemma extends_trans: "extends a b \<Longrightarrow> extends b c \<Longrightarrow> extends a c"
  unfolding extends_def
  by (metis append.assoc)

lemma extends_subscribe: "extends bus (subscribe c s bus)"
  by (auto simp add: extends_def subscribe_def registered_def registered_filters_def
      split: option.splits)

lemma extends_add_filter: "extends bus (add_filter c f bus)"
  by (auto simp add: extends_def add_filter_def registered_def registered_filters_def
      split: option.splits)

lemma extends_apply_call: "extends bus (apply_call bus c)"
  by (cases c) (simp_all add: extends_subscribe extends_add_filter)

lemma extends_apply_calls: "extends bus (apply_calls bus cs)"
  unfolding apply_calls_def
proof (induction cs arbitrary: bus)
  case Nil
  show ?case by (simp add: extends_refl)
next
  case (Cons c cs)
  from extends_apply_call [of bus c] Cons.IH [of "apply_call bus c"] show ?case
    by (auto intro: extends_trans)
qed

lemma extends_publish_body: "extends bus (fst (publish_body out bus e s))"
  by (simp add: publish_body_bus extends_refl extends_apply_calls)

lemma extends_nth:
  assumes "extends b b'" and "i < length (registered b c)"
  shows "registered b' c ! i = registered b c ! i" and "i < length (registered b' c)"
proof -
  from assms(1) obtain more where "registered b' c = registered b c @ more"
    unfolding extends_def by blast
  with assms(2) show "registered b' c ! i = registered b c ! i" and "i < length (registered b' c)"
    by (simp_all add: nth_append)
qed

lemma registered_Some: "subscribers bus c = Some l \<Longrightarrow> registered bus c = l"
  by (simp add: registered_def)

lemma registered_nonempty_Some:
  "i < length (registered bus c) \<Longrightarrow> subscribers bus c = Some (registered bus c)"
  by (simp add: registered_def split: option.splits)

subsection \<open>Getting to the i-th iteration\<close>

lemma bind_prepend_nil:
  "Option.bind x (\<lambda>(b, t, r). Some (b, [] @ t, r)) = x"
  by (cases x) auto

lemma bind_prepend_prepend:
  "Option.bind (Option.bind x (\<lambda>(b, t, r). Some (b, t1 @ t, r))) (\<lambda>(b, t, r). Some (b, t0 @ t, r))
     = Option.bind x (\<lambda>(b, t, r). Some (b, (t0 @ t1) @ t, r))"
  by (cases x) auto

lemma dispatch_to_loop:
  assumes "dispatch_to out bus e i = Some (b, t)"
  shows "publish_loop out bus e 0
     = Option.bind (publish_loop out b e i) (\<lambda>(b', t', r). Some (b', t @ t', r))"
  using assms
proof (induction i arbitrary: b t)
  case 0
  then show ?case using bind_prepend_nil [of "publish_loop out bus e 0"] by simp
next
  case (Suc i)
  from Suc.prems obtain b0 t0 l t1 u where
    d: "dispatch_to out bus e i = Some (b0, t0)"
    and l: "subscribers b0 (etype e) = Some l" and i: "i < length l"
    and body: "publish_body out b0 e (l ! i) = (b, t1, Inr u)" and t: "t = t0 @ t1"
    by (auto split: option.splits if_splits prod.splits sum.splits)
  from publish_loop_step [OF l i, of out] body
  have "publish_loop out b0 e i
      = Option.bind (publish_loop out b e (Suc i)) (\<lambda>(b', t', r). Some (b', t1 @ t', r))"
    by simp
  with Suc.IH [OF d] t show ?case
    by (cases "publish_loop out b e (Suc i)") auto
qed

subsection \<open>What a log holds\<close>

lemma handle_calls_append: "handle_calls (xs @ ys) = handle_calls xs @ handle_calls ys"
  by (induction xs rule: handle_calls.induct) simp_all

lemma can_handle_calls_append:
  "can_handle_calls (xs @ ys) = can_handle_calls xs @ can_handle_calls ys"
  by (induction xs rule: can_handle_calls.induct) simp_all

lemma handle_calls_set: "(i \<in> set (handle_calls t)) = (Handle i \<in> set t)"
  by (induction t rule: handle_calls.induct) auto

lemma all_filters_quiet:
  "handle_calls (fst (all_filters fs k e)) = [] \<and> can_handle_calls (fst (all_filters fs k e)) = []"
proof (induction fs arbitrary: k)
  case Nil
  show ?case by simp
next
  case (Cons f fs)
  from Cons.IH [of "Suc k"] show ?case
    by (simp add: case_prod_beta split: sum.splits)
qed

lemma should_handle_calls:
  "handle_calls (fst (should_handle bus e s)) = []
   \<and> can_handle_calls (fst (should_handle bus e s)) = [sid s]"
  by (simp add: should_handle_unfold all_filters_quiet split: sum.splits)

lemma publish_try_calls:
  "handle_calls (fst (snd (publish_try bus e s))) = (if accepted bus e s then [sid s] else [])
   \<and> can_handle_calls (fst (snd (publish_try bus e s))) = [sid s]"
  by (simp add: publish_try_unfold handle_calls_append can_handle_calls_append
      should_handle_calls accepted_def split: sum.splits)

lemma publish_body_calls:
  "handle_calls (fst (snd (publish_body out bus e s))) = (if accepted bus e s then [sid s] else [])
   \<and> can_handle_calls (fst (snd (publish_body out bus e s))) = [sid s]"
  by (simp add: publish_body_unfold handle_calls_append can_handle_calls_append
      publish_try_calls split: sum.splits raised.splits option.splits)

subsection \<open>The loop of publish\<close>


lemma publish_loop_order:
  assumes "publish_loop out bus e i = Some y"
  shows "extends bus (fst y)
     \<and> (\<exists>k. can_handle_calls (fst (snd y))
            = map sid (take k (drop i (registered (fst y) (etype e)))))
     \<and> (snd (snd y) = Inr () \<longrightarrow>
          can_handle_calls (fst (snd y)) = map sid (drop i (registered (fst y) (etype e))))"
proof (rule publish_loop.raw_induct [where P = "\<lambda>out bus e i y.
      extends bus (fst y)
      \<and> (\<exists>k. can_handle_calls (fst (snd y))
             = map sid (take k (drop i (registered (fst y) (etype e)))))
      \<and> (snd (snd y) = Inr () \<longrightarrow>
           can_handle_calls (fst (snd y)) = map sid (drop i (registered (fst y) (etype e))))",
      OF _ assms])
  fix loop :: "stdout \<Rightarrow> ('a, 'b) event_bus \<Rightarrow> ('a, 'b) event \<Rightarrow> nat
      \<Rightarrow> (('a, 'b) event_bus \<times> effect list \<times> (raised + unit)) option"
  fix out bus e i y
  assume IH: "\<And>out bus e i y. loop out bus e i = Some y \<Longrightarrow>
      extends bus (fst y)
      \<and> (\<exists>k. can_handle_calls (fst (snd y))
             = map sid (take k (drop i (registered (fst y) (etype e)))))
      \<and> (snd (snd y) = Inr () \<longrightarrow>
           can_handle_calls (fst (snd y)) = map sid (drop i (registered (fst y) (etype e))))"
  assume eqn: "(case subscribers bus (etype e) of
        None \<Rightarrow> Some (bus, [], Inr ())
      | Some l \<Rightarrow>
          if i < length l then
            (case publish_body out bus e (l ! i) of
               (bus', t, Inl x) \<Rightarrow> Some (bus', t, Inl x)
             | (bus', t, Inr u) \<Rightarrow>
                 Option.bind (loop out bus' e (Suc i))
                   (\<lambda>(bus'', t', r'). Some (bus'', t @ t', r')))
          else Some (bus, [], Inr ())) = Some y"
  show "extends bus (fst y)
      \<and> (\<exists>k. can_handle_calls (fst (snd y))
             = map sid (take k (drop i (registered (fst y) (etype e)))))
      \<and> (snd (snd y) = Inr () \<longrightarrow>
           can_handle_calls (fst (snd y)) = map sid (drop i (registered (fst y) (etype e))))"
  proof (cases "i < length (registered bus (etype e))")
    case False
    with eqn have y: "y = (bus, [], Inr ())"
      by (auto simp add: registered_def split: option.splits)
    with False show ?thesis by (simp add: extends_refl)
  next
    case True
    let ?l = "registered bus (etype e)"
    let ?s = "?l ! i"
    obtain b1 t1 r1 where body: "publish_body out bus e ?s = (b1, t1, r1)"
      by (cases "publish_body out bus e ?s")
    from extends_publish_body [of bus out e ?s] body have ext1: "extends bus b1" by simp
    from publish_body_calls [of out bus e ?s] body have c1: "can_handle_calls t1 = [sid ?s]"
      by simp
    from True have sub: "subscribers bus (etype e) = Some ?l"
      by (rule registered_nonempty_Some)
    show ?thesis
    proof (cases r1)
      case (Inl x)
      with eqn sub True body have y: "y = (b1, t1, Inl x)" by simp
      from extends_nth [OF ext1 True] have "take 1 (drop i (registered b1 (etype e))) = [?s]"
        by (simp add: Cons_nth_drop_Suc [symmetric])
      then have "can_handle_calls t1 = map sid (take 1 (drop i (registered b1 (etype e))))"
        using c1 by simp
      with y ext1 show ?thesis by auto
    next
      case (Inr u)
      with eqn sub True body obtain b2 t2 r2 where
        rest: "loop out b1 e (Suc i) = Some (b2, t2, r2)" and y: "y = (b2, t1 @ t2, r2)"
        by (auto simp add: bind_eq_Some_conv)
      from IH [OF rest] have ext2: "extends b1 b2"
        and pre: "\<exists>k. can_handle_calls t2 = map sid (take k (drop (Suc i) (registered b2 (etype e))))"
        and all: "r2 = Inr () \<longrightarrow> can_handle_calls t2 = map sid (drop (Suc i) (registered b2 (etype e)))"
        by simp_all
      from ext1 ext2 have ext: "extends bus b2" by (rule extends_trans)
      from extends_nth [OF ext True]
      have dr: "drop i (registered b2 (etype e)) = ?s # drop (Suc i) (registered b2 (etype e))"
        by (simp add: Cons_nth_drop_Suc [symmetric])
      from pre obtain k where
        "can_handle_calls t2 = map sid (take k (drop (Suc i) (registered b2 (etype e))))" ..
      with c1 dr have "can_handle_calls (t1 @ t2)
          = map sid (take (Suc k) (drop i (registered b2 (etype e))))"
        by (simp add: can_handle_calls_append)
      then have pre': "\<exists>k. can_handle_calls (t1 @ t2)
          = map sid (take k (drop i (registered b2 (etype e))))" ..
      from all c1 dr have "r2 = Inr () \<longrightarrow> can_handle_calls (t1 @ t2)
          = map sid (drop i (registered b2 (etype e)))"
        by (simp add: can_handle_calls_append)
      with y ext pre' show ?thesis by simp
    qed
  qed
qed



subsection \<open>The filter chain\<close>

lemma all_filters_True:
  "(snd (all_filters fs k e) = Inr True) = (\<forall>f \<in> set fs. f e = Inr True)"
proof (induction fs arbitrary: k)
  case Nil
  show ?case by simp
next
  case (Cons f fs)
  show ?case
  proof (cases "f e")
    case (Inl x)
    then show ?thesis by auto
  next
    case (Inr b)
    with Cons.IH [of "Suc k"] show ?thesis
      by (cases b) (auto split: prod.splits)
  qed
qed

lemma all_filters_raise:
  assumes "\<forall>g \<in> set fs1. g e = Inr True" and "f e = Inl x"
  shows "all_filters (fs1 @ f # fs2) k e
     = (map Filter [k ..< Suc (k + length fs1)], Inl (generator_raise x))"
  using assms
proof (induction fs1 arbitrary: k)
  case Nil
  then show ?case by simp
next
  case (Cons g fs1)
  from Cons.prems have g: "g e = Inr True" and rest: "\<forall>g \<in> set fs1. g e = Inr True"
    by simp_all
  have ih: "all_filters (fs1 @ f # fs2) (Suc k) e
      = (map Filter [Suc k ..< Suc (Suc k + length fs1)], Inl (generator_raise x))"
    using rest Cons.prems(2) by (rule Cons.IH)
  have up: "[k ..< Suc (k + length (g # fs1))] = k # [Suc k ..< Suc (Suc k + length fs1)]"
    by (simp del: upt_Suc add: upt_conv_Cons)
  show ?case
    unfolding up using g ih by simp
qed

lemma all_filters_called:
  assumes "\<forall>g \<in> set fs1. g e = Inr True"
  shows "Filter (k + length fs1) \<in> set (fst (all_filters (fs1 @ f # fs2) k e))"
  using assms
proof (induction fs1 arbitrary: k)
  case Nil
  show ?case by (simp add: case_prod_beta split: sum.splits)
next
  case (Cons g fs1)
  from Cons.prems have g: "g e = Inr True" and rest: "\<forall>g \<in> set fs1. g e = Inr True"
    by simp_all
  from Cons.IH [OF rest, of "Suc k"] g show ?case
    by (simp add: case_prod_beta)
qed

lemma should_handle_result:
  "snd (should_handle bus e s) =
     (case can_handle s e of
        Inl x \<Rightarrow> Inl x
      | Inr ok \<Rightarrow> if \<not> ok then Inr False
                  else snd (all_filters (registered_filters bus (etype e)) 0 e))"
  by (simp add: should_handle_unfold split: sum.splits)

lemma accepted_filters_True:
  assumes "accepted bus e s"
  shows "can_handle s e = Inr True \<and> (\<forall>f \<in> set (registered_filters bus (etype e)). f e = Inr True)"
proof -
  from assms have c: "can_handle s e = Inr True"
    by (auto simp add: accepted_def should_handle_result split: sum.splits if_splits)
  with assms have "snd (all_filters (registered_filters bus (etype e)) 0 e) = Inr True"
    by (simp add: accepted_def should_handle_result)
  with c show ?thesis by (simp add: all_filters_True)
qed

lemma publish_body_log_should_handle:
  "\<exists>rest. fst (snd (publish_body out bus e s)) = fst (should_handle bus e s) @ rest"
  by (simp add: publish_body_unfold publish_try_unfold
      split: sum.splits raised.splits option.splits)

lemma publish_body_Handle:
  "(Handle (sid s) \<in> set (fst (snd (publish_body out bus e s)))) = accepted bus e s"
  using publish_body_calls [of out bus e s]
    handle_calls_set [of "sid s" "fst (snd (publish_body out bus e s))"]
  by (simp split: if_splits)

subsection \<open>Buses that agree for an event\<close>

lemma agree_sym: "agree e b1 b2 \<Longrightarrow> agree e b2 b1"
  by (simp add: agree_def)

lemma agree_apply_call: "agree e b1 b2 \<Longrightarrow> agree e (apply_call b1 c) (apply_call b2 c)"
  by (cases c) (auto simp add: agree_def subscribe_def add_filter_def split: option.splits)

lemma agree_apply_calls: "agree e b1 b2 \<Longrightarrow> agree e (apply_calls b1 cs) (apply_calls b2 cs)"
  unfolding apply_calls_def
proof (induction cs arbitrary: b1 b2)
  case Nil
  then show ?case by simp
next
  case (Cons c cs)
  from Cons.IH [OF agree_apply_call [OF Cons.prems]] show ?case by simp
qed

lemma agree_should_handle:
  assumes "agree e b1 b2"
  shows "should_handle b1 e s = should_handle b2 e s"
proof -
  from assms have eq: "registered_filters b1 (etype e) = registered_filters b2 (etype e)"
    by (simp add: registered_filters_def agree_def)
  show ?thesis unfolding should_handle_unfold eq ..
qed

lemma agree_publish_body:
  assumes "agree e b1 b2"
  shows "snd (publish_body out b1 e s) = snd (publish_body out b2 e s)
     \<and> agree e (fst (publish_body out b1 e s)) (fst (publish_body out b2 e s))"
proof -
  have sh: "should_handle b1 e s = should_handle b2 e s"
    using assms by (rule agree_should_handle)
  have t: "snd (publish_try b1 e s) = snd (publish_try b2 e s)"
    by (simp add: publish_try_unfold sh split: sum.splits)
  have "snd (publish_body out b1 e s) = snd (publish_body out b2 e s)"
    by (simp add: publish_body_unfold t split: sum.splits raised.splits option.splits)
  moreover have "agree e (fst (publish_body out b1 e s)) (fst (publish_body out b2 e s))"
    using assms by (simp add: publish_body_bus accepted_def sh agree_apply_calls)
  ultimately show ?thesis by simp
qed

lemma agree_loop_Some:
  assumes "publish_loop out b1 e i = Some y"
  shows "\<forall>b2. agree e b1 b2 \<longrightarrow>
     (\<exists>b2'. publish_loop out b2 e i = Some (b2', snd y) \<and> agree e (fst y) b2')"
proof (rule publish_loop.raw_induct [where P = "\<lambda>out b1 e i y.
      \<forall>b2. agree e b1 b2 \<longrightarrow>
        (\<exists>b2'. publish_loop out b2 e i = Some (b2', snd y) \<and> agree e (fst y) b2')",
      OF _ assms])
  fix loop :: "stdout \<Rightarrow> ('a, 'b) event_bus \<Rightarrow> ('a, 'b) event \<Rightarrow> nat
      \<Rightarrow> (('a, 'b) event_bus \<times> effect list \<times> (raised + unit)) option"
  fix out b1 e i y
  assume IH: "\<And>out b1 e i y. loop out b1 e i = Some y \<Longrightarrow>
      \<forall>b2. agree e b1 b2 \<longrightarrow>
        (\<exists>b2'. publish_loop out b2 e i = Some (b2', snd y) \<and> agree e (fst y) b2')"
  assume eqn: "(case subscribers b1 (etype e) of
        None \<Rightarrow> Some (b1, [], Inr ())
      | Some l \<Rightarrow>
          if i < length l then
            (case publish_body out b1 e (l ! i) of
               (bus', t, Inl x) \<Rightarrow> Some (bus', t, Inl x)
             | (bus', t, Inr u) \<Rightarrow>
                 Option.bind (loop out bus' e (Suc i))
                   (\<lambda>(bus'', t', r'). Some (bus'', t @ t', r')))
          else Some (b1, [], Inr ())) = Some y"
  show "\<forall>b2. agree e b1 b2 \<longrightarrow>
        (\<exists>b2'. publish_loop out b2 e i = Some (b2', snd y) \<and> agree e (fst y) b2')"
  proof (intro allI impI)
    fix b2
    assume ag: "agree e b1 b2"
    then have reg: "registered b2 (etype e) = registered b1 (etype e)"
      by (simp add: agree_def registered_def)
    show "\<exists>b2'. publish_loop out b2 e i = Some (b2', snd y) \<and> agree e (fst y) b2'"
    proof (cases "i < length (registered b1 (etype e))")
      case False
      with eqn have y: "y = (b1, [], Inr ())"
        by (auto simp add: registered_def split: option.splits)
      from False reg have "publish_loop out b2 e i = Some (b2, [], Inr ())"
        by (simp add: publish_loop_end)
      with y ag show ?thesis by simp
    next
      case True
      let ?l = "registered b1 (etype e)"
      let ?s = "?l ! i"
      from True have sub1: "subscribers b1 (etype e) = Some ?l"
        by (rule registered_nonempty_Some)
      with ag have sub2: "subscribers b2 (etype e) = Some ?l" by (simp add: agree_def)
      obtain c1 t1 r1 where body1: "publish_body out b1 e ?s = (c1, t1, r1)"
        by (cases "publish_body out b1 e ?s")
      from agree_publish_body [OF ag, of out ?s] body1 obtain c2 where
        body2: "publish_body out b2 e ?s = (c2, t1, r1)" and ag': "agree e c1 c2"
        by (cases "publish_body out b2 e ?s") auto
      show ?thesis
      proof (cases r1)
        case (Inl x)
        with eqn sub1 True body1 have y: "y = (c1, t1, Inl x)" by simp
        from publish_loop_step [OF sub2 True, of out] body2 Inl
        have "publish_loop out b2 e i = Some (c2, t1, Inl x)" by simp
        with y ag' show ?thesis by simp
      next
        case (Inr u)
        with eqn sub1 True body1 obtain d1 t2 r2 where
          rest: "loop out c1 e (Suc i) = Some (d1, t2, r2)" and y: "y = (d1, t1 @ t2, r2)"
          by (auto simp add: bind_eq_Some_conv)
        from IH [OF rest] ag' obtain d2 where
          rest2: "publish_loop out c2 e (Suc i) = Some (d2, t2, r2)" and ag'': "agree e d1 d2"
          by auto
        from publish_loop_step [OF sub2 True, of out] body2 Inr rest2
        have "publish_loop out b2 e i = Some (d2, t1 @ t2, r2)" by simp
        with y ag'' show ?thesis by simp
      qed
    qed
  qed
qed

lemma agree_loop:
  assumes "agree e b1 b2"
  shows "map_option snd (publish_loop out b1 e i) = map_option snd (publish_loop out b2 e i)"
proof (cases "publish_loop out b1 e i")
  case (Some y)
  from agree_loop_Some [OF Some] assms show ?thesis using Some by auto
next
  case None
  show ?thesis
  proof (cases "publish_loop out b2 e i")
    case None
    with \<open>publish_loop out b1 e i = None\<close> show ?thesis by simp
  next
    case (Some y)
    from agree_loop_Some [OF Some] agree_sym [OF assms] None show ?thesis by auto
  qed
qed

lemma add_filter_elsewhere:
  assumes "c \<noteq> etype e"
  shows "map_option snd (publish out (add_filter c g bus) e) = map_option snd (publish out bus e)"
proof -
  from assms have "agree e (add_filter c g bus) bus"
    by (simp add: agree_def add_filter_def split: option.splits)
  then show ?thesis by (simp add: publish_start agree_loop)
qed

subsection \<open>The loop of a quiet dispatch\<close>








subsection \<open>Registration\<close>





subsection \<open>Outcomes\<close>

lemma report_entry_unfold:
  "report_entry bus e s =
     (case snd (should_handle bus e s) of
        Inl x \<Rightarrow> Failed x
      | Inr go \<Rightarrow>
          if \<not> go then (if can_handle s e = Inr False then Skipped SelfRejected
                         else Skipped Filtered)
          else (case snd (handle s e) of Inl x \<Rightarrow> Failed x | Inr u \<Rightarrow> Delivered))"
  by (simp add: report_entry_def should_handle_unfold split: sum.splits)

lemma report_entry_self_rejected:
  "(report_entry bus e s = Skipped SelfRejected) = (can_handle s e = Inr False)"
  by (simp add: report_entry_def split: sum.splits)

subsection \<open>One iteration more\<close>

lemma dispatch_to_Suc:
  assumes "dispatch_to out bus e i = Some (b, t)"
    and "subscribers b (etype e) = Some l" and "i < length l"
    and "publish_body out b e (l ! i) = (b', t', Inr ())"
  shows "dispatch_to out bus e (Suc i) = Some (b', t @ t')"
  using assms by simp

lemma dispatch_step:
  assumes reach: "dispatch_to out bus e i = Some (b, t)"
    and l: "subscribers b (etype e) = Some l" and i: "i < length l"
    and body: "publish_body out b e (l ! i) = (b', t', Inr ())"
  shows "publish out bus e
     = Option.bind (publish_loop out b' e (Suc i)) (\<lambda>(b'', t'', r). Some (b'', t @ t' @ t'', r))"
proof -
  from publish_loop_step [OF l i, of out] body
  have "publish_loop out b e i
      = Option.bind (publish_loop out b' e (Suc i)) (\<lambda>(b'', t'', r). Some (b'', t' @ t'', r))"
    by simp
  with dispatch_to_loop [OF reach] show ?thesis
    by (cases "publish_loop out b' e (Suc i)") (auto simp add: publish_start)
qed

lemma rest_evaluated:
  "publish_loop out b e i = Some (b', t, Inr ())
     \<longrightarrow> can_handle_calls t = map sid (drop i (registered b' (etype e)))"
  using publish_loop_order [of out b e i "(b', t, Inr ())"] by simp

subsection \<open>What leaves publish\<close>

text \<open>
  A \<^verbatim>\<open>KeyboardInterrupt\<close> is no \<^verbatim>\<open>Exception\<close>: raised by a \<^verbatim>\<open>handle\<close>, it
  leaves \<^verbatim>\<open>publish\<close> and the candidates after it are not attempted. So does
  what \<^verbatim>\<open>str(e)\<close> raises inside the \<^verbatim>\<open>except\<close> clause.
\<close>

lemma keyboard_interrupt_passes:
  "map_option snd (publish out (subscribe Event (LoggingHandler 2)
                  (subscribe Event (InterruptedHandler 1) EventBus_init)) tick)
     = Some ([CanHandle 1, Handle 1], Inl (BaseExceptionOnly ''KeyboardInterrupt''))"
  by (simp add: bus_defs ev_defs sub_defs run_defs)

lemma unprintable_exception_passes:
  "map_option snd (publish out (subscribe Event (LoggingHandler 2)
                  (subscribe Event (UnprintableHandler 1) EventBus_init)) tick)
     = Some ([CanHandle 1, Handle 1], Inl (Exception False (Inr ''no str'')))"
  by (simp add: bus_defs ev_defs sub_defs run_defs)

section \<open>The claims\<close>

text \<open>
  C1. The claim: a subscriber registered at a class receives every event whose
  class is a subclass of it. The code looks the subscribers up under
  \<^verbatim>\<open>type(event)\<close> alone. On the bus of \<^verbatim>\<open>main\<close>, where the logging handler is
  registered at \<^verbatim>\<open>Event\<close> under the comment "Logs all events" and accepts every
  event, none of the four events \<^verbatim>\<open>main\<close> publishes reaches it, whatever the
  console: the candidates of \<open>login\<close>, whose class is a subclass of \<^verbatim>\<open>Event\<close>,
  are the user action handler alone, and no log holds a call of the subscriber
  with identity 1.
\<close>

theorem base_class_subscriber_not_candidate:
  "issubclass (etype login) Event
   \<and> map sid (registered main_bus Event) = [1]
   \<and> can_handle (LoggingHandler 1) login = Inr True
   \<and> map sid (registered main_bus (etype login)) = [2]
   \<and> map_option snd (publish out main_bus login) = Some ([CanHandle 2, Handle 2], Inr ())
   \<and> map_option snd (publish out main_bus cpu_high)
       = Some ([CanHandle 3, Filter 0, Handle 3], Inr ())
   \<and> map_option snd (publish out main_bus memory_low) = Some ([CanHandle 3, Filter 0], Inr ())
   \<and> map_option snd (publish out main_bus user_updated) = Some ([], Inr ())"
  by (simp add: bus_defs ev_defs sub_defs run_defs registered_def priority_filter_def)

text \<open>
  C2, as claimed: \<^verbatim>\<open>publish\<close> returns a report holding one outcome for each
  attempted candidate. It does not: on the bus of \<^verbatim>\<open>main\<close>, the alert handler
  is delivered \<open>cpu_high\<close> and is skipped by the filter for \<open>memory_low\<close>, and
  \<^verbatim>\<open>publish\<close> returns the same \<^verbatim>\<open>None\<close> both times.
\<close>

theorem publish_returns_no_report_counterexample:
  "map (report_entry main_bus cpu_high) (registered main_bus (etype cpu_high)) = [Delivered]
   \<and> map (report_entry main_bus memory_low) (registered main_bus (etype memory_low))
       = [Skipped Filtered]
   \<and> map_option (\<lambda>y. snd (snd y)) (publish console main_bus cpu_high) = Some (Inr ())
   \<and> map_option (\<lambda>y. snd (snd y)) (publish console main_bus memory_low) = Some (Inr ())"
  by (simp add: bus_defs ev_defs sub_defs run_defs registered_def registered_filters_def
      report_entry_def priority_filter_def)

text \<open>
  C2, amended. \<^verbatim>\<open>publish\<close> returns no report: when it ends it returns \<^verbatim>\<open>None\<close>
  or raises. Each attempted candidate still ends in exactly one outcome among
  Delivered, Skipped (self-rejected), Skipped (filtered) and Failed (with the
  error): the outcome is how the suite of the \<^verbatim>\<open>try\<close> ends for the candidate
  (raising the error when Failed, normally otherwise), \<^verbatim>\<open>handle\<close> is called once
  when Delivered and not at all when Skipped, and the candidate is skipped as
  self-rejected exactly when its \<^verbatim>\<open>can_handle\<close> returns false.
\<close>

theorem attempt_has_one_outcome:
  "snd (snd (publish_try bus e s)) = attempt_end (report_entry bus e s)
   \<and> (report_entry bus e s = Delivered \<longrightarrow>
        handle_calls (fst (snd (publish_try bus e s))) = [sid s])
   \<and> (\<forall>r. report_entry bus e s = Skipped r \<longrightarrow>
        handle_calls (fst (snd (publish_try bus e s))) = [])
   \<and> ((report_entry bus e s = Skipped SelfRejected) = (can_handle s e = Inr False))
   \<and> (publish out bus e = Some (b, t, r) \<longrightarrow> r = Inr () \<or> (\<exists>x. r = Inl x))"
proof -
  have e1: "snd (snd (publish_try bus e s)) = attempt_end (report_entry bus e s)"
    by (simp add: publish_try_unfold report_entry_unfold split: sum.splits)
  have e2: "report_entry bus e s = Delivered \<longrightarrow>
        handle_calls (fst (snd (publish_try bus e s))) = [sid s]"
    by (simp add: publish_try_calls accepted_def report_entry_unfold split: sum.splits)
  have e3: "\<forall>r. report_entry bus e s = Skipped r \<longrightarrow>
        handle_calls (fst (snd (publish_try bus e s))) = []"
    by (simp add: publish_try_calls accepted_def report_entry_unfold split: sum.splits)
  have e5: "publish out bus e = Some (b, t, r) \<longrightarrow> r = Inr () \<or> (\<exists>x. r = Inl x)"
    by (cases r) simp_all
  from e1 e2 e3 report_entry_self_rejected [of bus e s] e5 show ?thesis by blast
qed

theorem attempt_has_one_outcome_witness:
  "map (report_entry trio_bus tick) (registered trio_bus (etype tick))
       = [Delivered, Failed (Exception False (Inr ''boom'')), Delivered]
   \<and> snd (snd (publish_try trio_bus tick (FailingHandler 2 ''boom'')))
       = Inl (Exception False (Inr ''boom''))
   \<and> report_entry main_bus memory_low (AlertHandler 3) = Skipped Filtered
   \<and> handle_calls (fst (snd (publish_try main_bus memory_low (AlertHandler 3)))) = []
   \<and> report_entry main_bus cpu_high (AlertHandler 3) = Delivered
   \<and> handle_calls (fst (snd (publish_try main_bus cpu_high (AlertHandler 3)))) = [3]"
proof -
  have m: "map (report_entry trio_bus tick) (registered trio_bus (etype tick))
       = [Delivered, Failed (Exception False (Inr ''boom'')), Delivered]"
    by (simp add: bus_defs ev_defs sub_defs registered_def registered_filters_def
        report_entry_def)
  have e0: "report_entry trio_bus tick (FailingHandler 2 ''boom'')
      = Failed (Exception False (Inr ''boom''))"
    by (simp add: bus_defs ev_defs sub_defs registered_filters_def report_entry_def)
  have e1: "report_entry main_bus memory_low (AlertHandler 3) = Skipped Filtered"
    and e2: "report_entry main_bus cpu_high (AlertHandler 3) = Delivered"
    by (simp_all add: bus_defs ev_defs sub_defs registered_filters_def report_entry_def
        priority_filter_def)
  have s3: "sid (AlertHandler 3) = 3" by (simp add: sub_defs)
  from attempt_has_one_outcome [of trio_bus tick "FailingHandler 2 ''boom''"] e0
  have f: "snd (snd (publish_try trio_bus tick (FailingHandler 2 ''boom'')))
       = Inl (Exception False (Inr ''boom''))" by simp
  from attempt_has_one_outcome [of main_bus memory_low "AlertHandler 3"] e1
  have h1: "handle_calls (fst (snd (publish_try main_bus memory_low (AlertHandler 3)))) = []"
    by blast
  from attempt_has_one_outcome [of main_bus cpu_high "AlertHandler 3"] e2 s3
  have h2: "handle_calls (fst (snd (publish_try main_bus cpu_high (AlertHandler 3)))) = [3]"
    by simp
  from m f e1 h1 e2 h2 show ?thesis by blast
qed






text \<open>
  C5, as claimed: with no subscriber, \<^verbatim>\<open>publish\<close> returns an empty report. What
  it returns is the \<^verbatim>\<open>None\<close> it also returns after a delivery (the alert handler
  called for \<open>cpu_high\<close>): no report, empty or not.
\<close>

theorem publish_without_subscribers_counterexample:
  "registered (subscribe UserActionEvent (UserActionHandler 2) EventBus_init) (etype user_updated) = []
   \<and> map_option (\<lambda>y. snd (snd y))
        (publish console (subscribe UserActionEvent (UserActionHandler 2) EventBus_init) user_updated)
       = Some (Inr ())
   \<and> map_option (\<lambda>y. handle_calls (fst (snd y))) (publish console main_bus cpu_high) = Some [3]
   \<and> map_option (\<lambda>y. snd (snd y)) (publish console main_bus cpu_high) = Some (Inr ())"
  by (simp add: bus_defs ev_defs sub_defs run_defs registered_def priority_filter_def)

text \<open>
  C5, amended. An event whose type has no registered subscriber, at the type itself
  and at every ancestor \<open>a\<close> of it (whatever the ancestor relation \<open>anc\<close> is):
  \<^verbatim>\<open>publish\<close> returns \<^verbatim>\<open>None\<close> and does not raise, its log is empty (no call of
  any handler, nothing printed), and the bus is as it was.
\<close>

theorem publish_without_subscribers:
  assumes "registered bus (etype e) = []"
    and "\<forall>a. anc (etype e) a \<longrightarrow> registered bus a = []"
  shows "publish out bus e = Some (bus, [], Inr ())"
  using assms(1) by (simp add: publish_start publish_loop_end)

theorem publish_without_subscribers_witness:
  "registered (subscribe UserActionEvent (UserActionHandler 2) EventBus_init) (etype user_updated) = []
   \<and> registered (subscribe UserActionEvent (UserActionHandler 2) EventBus_init) Event = []
   \<and> publish console (subscribe UserActionEvent (UserActionHandler 2) EventBus_init) user_updated
       = Some (subscribe UserActionEvent (UserActionHandler 2) EventBus_init, [], Inr ())"
proof -
  let ?bus = "subscribe UserActionEvent (UserActionHandler 2) EventBus_init"
  have h1: "registered ?bus (etype user_updated) = []"
    by (simp add: registered_def bus_defs ev_defs)
  have h2: "\<forall>a. issubclass (etype user_updated) a \<longrightarrow> registered ?bus a = []"
    by (auto simp add: registered_def bus_defs ev_defs issubclass_def)
  have h3: "registered ?bus Event = []"
    by (simp add: registered_def bus_defs)
  from publish_without_subscribers [of ?bus user_updated issubclass console, OF h1 h2] h1 h3
  show ?thesis by blast
qed

text \<open>
  C6. For a candidate that accepts the event itself, \<^verbatim>\<open>_should_handle\<close> returns
  true if and only if every filter registered for exactly the type of the event
  returns true for the event. With no filter registered (the key absent, or an
  empty list) it returns true and \<^verbatim>\<open>handle\<close> is called: no filter never blocks.
\<close>

theorem filter_chain_all_true:
  assumes "can_handle s e = Inr True"
  shows "(snd (should_handle bus e s) = Inr True)
           = (\<forall>f \<in> set (registered_filters bus (etype e)). f e = Inr True)
         \<and> (registered_filters bus (etype e) = [] \<longrightarrow>
              snd (should_handle bus e s) = Inr True
              \<and> Handle (sid s) \<in> set (fst (snd (publish_body out bus e s))))"
proof -
  have iff: "(snd (should_handle bus e s) = Inr True)
      = (\<forall>f \<in> set (registered_filters bus (etype e)). f e = Inr True)"
    using assms by (simp add: should_handle_result all_filters_True)
  have "registered_filters bus (etype e) = [] \<longrightarrow>
      snd (should_handle bus e s) = Inr True
      \<and> Handle (sid s) \<in> set (fst (snd (publish_body out bus e s)))"
    using iff by (simp add: publish_body_Handle accepted_def)
  with iff show ?thesis by simp
qed

theorem filter_chain_all_true_witness:
  "can_handle (AlertHandler 3) cpu_high = Inr True
   \<and> registered_filters main_bus (etype cpu_high) = [priority_filter]
   \<and> priority_filter cpu_high = Inr True
   \<and> snd (should_handle main_bus cpu_high (AlertHandler 3)) = Inr True
   \<and> priority_filter memory_low = Inr False
   \<and> snd (should_handle main_bus memory_low (AlertHandler 3)) \<noteq> Inr True"
proof -
  have h: "can_handle (AlertHandler 3) cpu_high = Inr True"
    and h': "can_handle (AlertHandler 3) memory_low = Inr True"
    by (simp_all add: sub_defs ev_defs)
  have fs: "registered_filters main_bus (etype cpu_high) = [priority_filter]"
    "registered_filters main_bus (etype memory_low) = [priority_filter]"
    by (simp_all add: registered_filters_def bus_defs ev_defs)
  have p: "priority_filter cpu_high = Inr True" "priority_filter memory_low = Inr False"
    by (simp_all add: priority_filter_def ev_defs)
  from filter_chain_all_true [OF h, of main_bus] fs p
  have a: "snd (should_handle main_bus cpu_high (AlertHandler 3)) = Inr True" by simp
  from filter_chain_all_true [OF h', of main_bus] fs p
  have b: "snd (should_handle main_bus memory_low (AlertHandler 3)) \<noteq> Inr True" by simp
  from h fs p a b show ?thesis by blast
qed

text \<open>
  C7, as claimed: a filter registered at a class also gates the events of its
  subclasses. It does not: with a filter that rejects everything registered at
  \<^verbatim>\<open>Event\<close> on the bus of \<^verbatim>\<open>main\<close>, the event \<open>login\<close>, whose class is a
  subclass of \<^verbatim>\<open>Event\<close>, is delivered, and the filter is not called.
\<close>

theorem filters_of_base_class_counterexample:
  "issubclass (etype login) Event
   \<and> registered_filters (add_filter Event reject_all main_bus) Event = [reject_all]
   \<and> reject_all login = Inr False
   \<and> map_option snd (publish console (add_filter Event reject_all main_bus) login)
       = Some ([CanHandle 2, Handle 2], Inr ())"
  by (simp add: bus_defs ev_defs sub_defs run_defs registered_filters_def reject_all_def)

text \<open>
  C7, amended. The filters consulted are those registered for exactly the class
  of the event. Such a filter is called for a candidate that accepts the event
  itself once the filters registered before it have returned true, and
  \<^verbatim>\<open>handle\<close> is called only if it returns true. A filter registered at any
  other class, a base class of the event's included, changes nothing in the
  dispatch of the event: the same log, the same end.
\<close>

theorem filters_gate_exact_type:
  "(registered_filters bus (etype e) = fs1 @ f # fs2 \<and> can_handle s e = Inr True
      \<and> (\<forall>g \<in> set fs1. g e = Inr True)
      \<longrightarrow> Filter (length fs1) \<in> set (fst (snd (publish_body out bus e s))))
   \<and> (f \<in> set (registered_filters bus (etype e))
      \<and> Handle (sid s) \<in> set (fst (snd (publish_body out bus e s))) \<longrightarrow> f e = Inr True)
   \<and> (c \<noteq> etype e \<longrightarrow>
        map_option snd (publish out (add_filter c g bus) e) = map_option snd (publish out bus e))"
proof -
  have called: "registered_filters bus (etype e) = fs1 @ f # fs2 \<and> can_handle s e = Inr True
      \<and> (\<forall>g \<in> set fs1. g e = Inr True)
      \<longrightarrow> Filter (length fs1) \<in> set (fst (snd (publish_body out bus e s)))"
  proof
    assume a: "registered_filters bus (etype e) = fs1 @ f # fs2 \<and> can_handle s e = Inr True
      \<and> (\<forall>g \<in> set fs1. g e = Inr True)"
    then have "\<forall>g \<in> set fs1. g e = Inr True" by simp
    from all_filters_called [OF this, of 0 f fs2]
    have "Filter (0 + length fs1) \<in> set (fst (all_filters (fs1 @ f # fs2) 0 e))" .
    with a have "Filter (length fs1) \<in> set (fst (should_handle bus e s))"
      by (simp add: should_handle_unfold)
    with publish_body_log_should_handle [of out bus e s]
    show "Filter (length fs1) \<in> set (fst (snd (publish_body out bus e s)))"
      by auto
  qed
  have gate: "f \<in> set (registered_filters bus (etype e))
      \<and> Handle (sid s) \<in> set (fst (snd (publish_body out bus e s))) \<longrightarrow> f e = Inr True"
    using accepted_filters_True [of bus e s] by (auto simp add: publish_body_Handle)
  from called gate add_filter_elsewhere [of c e out g bus] show ?thesis by blast
qed

theorem filters_gate_exact_type_witness:
  "registered_filters main_bus (etype memory_low) = [] @ priority_filter # []
   \<and> can_handle (AlertHandler 3) memory_low = Inr True
   \<and> Filter 0 \<in> set (fst (snd (publish_body console main_bus memory_low (AlertHandler 3))))
   \<and> priority_filter memory_low = Inr False
   \<and> Handle 3 \<notin> set (fst (snd (publish_body console main_bus memory_low (AlertHandler 3))))
   \<and> Event \<noteq> etype login
   \<and> map_option snd (publish console (add_filter Event reject_all main_bus) login)
       = map_option snd (publish console main_bus login)"
proof -
  have h1: "registered_filters main_bus (etype memory_low) = [] @ priority_filter # []"
    by (simp add: bus_defs ev_defs registered_filters_def)
  have h2: "can_handle (AlertHandler 3) memory_low = Inr True"
    by (simp add: ev_defs sub_defs)
  have h3: "priority_filter memory_low = Inr False"
    by (simp add: ev_defs priority_filter_def)
  have h4: "Event \<noteq> etype login" by (simp add: ev_defs)
  have s3: "sid (AlertHandler 3) = 3" by (simp add: sub_defs)
  note inst = filters_gate_exact_type [where bus=main_bus and e=memory_low and ?fs1.0="[]"
      and f=priority_filter and ?fs2.0="[]" and s="AlertHandler 3" and out=console]
  from inst h1 h2
  have a: "Filter 0 \<in> set (fst (snd (publish_body console main_bus memory_low (AlertHandler 3))))"
    by simp
  from inst h1 h3 s3
  have b: "Handle 3 \<notin> set (fst (snd (publish_body console main_bus memory_low (AlertHandler 3))))"
    by auto
  from filters_gate_exact_type [where bus=main_bus and e=login and c=Event and g=reject_all
      and out=console] h4
  have c: "map_option snd (publish console (add_filter Event reject_all main_bus) login)
      = map_option snd (publish console main_bus login)"
    by blast
  from h1 h2 a h3 b h4 c show ?thesis by blast
qed

text \<open>
  C8. A candidate whose \<^verbatim>\<open>can_handle\<close> returns false is skipped: the attempt
  consists of that one call, no filter is called for it (whatever filters the bus
  holds) and neither is its \<^verbatim>\<open>handle\<close>, the bus stays as it is, and the loop goes
  on with the next candidate.
\<close>

theorem self_rejecting_skipped:
  assumes "can_handle s e = Inr False"
  shows "should_handle bus e s = ([CanHandle (sid s)], Inr False)
         \<and> publish_body out bus e s = (bus, [CanHandle (sid s)], Inr ())
         \<and> (subscribers bus (etype e) = Some l \<and> i < length l \<and> l ! i = s \<longrightarrow>
              publish_loop out bus e i
                = Option.bind (publish_loop out bus e (Suc i))
                    (\<lambda>(b, t, r). Some (b, CanHandle (sid s) # t, r)))"
proof -
  have sh: "should_handle bus e s = ([CanHandle (sid s)], Inr False)"
    using assms by (simp add: should_handle_def)
  then have body: "publish_body out bus e s = (bus, [CanHandle (sid s)], Inr ())"
    by (simp add: publish_body_def publish_try_def)
  have "subscribers bus (etype e) = Some l \<and> i < length l \<and> l ! i = s \<longrightarrow>
      publish_loop out bus e i
        = Option.bind (publish_loop out bus e (Suc i))
            (\<lambda>(b, t, r). Some (b, CanHandle (sid s) # t, r))"
  proof
    assume a: "subscribers bus (etype e) = Some l \<and> i < length l \<and> l ! i = s"
    then have l: "subscribers bus (etype e) = Some l" and i: "i < length l" and s: "l ! i = s"
      by simp_all
    show "publish_loop out bus e i
        = Option.bind (publish_loop out bus e (Suc i))
            (\<lambda>(b, t, r). Some (b, CanHandle (sid s) # t, r))"
      unfolding publish_loop_step [OF l i] s body by simp
  qed
  with sh body show ?thesis by simp
qed

theorem self_rejecting_skipped_witness:
  "can_handle (UserActionHandler 4) cpu_high = Inr False
   \<and> should_handle main_bus cpu_high (UserActionHandler 4) = ([CanHandle 4], Inr False)
   \<and> map_option snd (publish console (subscribe SystemAlertEvent (AlertHandler 3)
          (add_filter SystemAlertEvent priority_filter
            (subscribe SystemAlertEvent (UserActionHandler 4) EventBus_init))) cpu_high)
       = Some ([CanHandle 4, CanHandle 3, Filter 0, Handle 3], Inr ())"
proof -
  let ?bus = "subscribe SystemAlertEvent (AlertHandler 3)
          (add_filter SystemAlertEvent priority_filter
            (subscribe SystemAlertEvent (UserActionHandler 4) EventBus_init))"
  have h: "can_handle (UserActionHandler 4) cpu_high = Inr False"
    by (simp add: sub_defs ev_defs)
  have s: "sid (UserActionHandler 4) = 4" by (simp add: sub_defs)
  have l: "subscribers ?bus (etype cpu_high) = Some [UserActionHandler 4, AlertHandler 3]"
    by (simp add: bus_defs ev_defs)
  have rest: "publish_loop console ?bus cpu_high (Suc 0)
      = Some (?bus, [CanHandle 3, Filter 0, Handle 3], Inr ())"
    by (simp add: bus_defs ev_defs sub_defs run_defs priority_filter_def)
  from self_rejecting_skipped [OF h, of main_bus] s
  have a: "should_handle main_bus cpu_high (UserActionHandler 4) = ([CanHandle 4], Inr False)"
    by simp
  from self_rejecting_skipped [OF h, of ?bus console "[UserActionHandler 4, AlertHandler 3]" 0] l s rest
  have "publish_loop console ?bus cpu_high 0
      = Some (?bus, [CanHandle 4, CanHandle 3, Filter 0, Handle 3], Inr ())" by simp
  then have b: "map_option snd (publish console ?bus cpu_high)
       = Some ([CanHandle 4, CanHandle 3, Filter 0, Handle 3], Inr ())"
    by (simp add: publish_start)
  from h a b show ?thesis by blast
qed

text \<open>
  C9, as claimed: an exception raised by a filter never reaches the caller and the
  remaining candidates are still attempted. Not when the error line cannot be
  printed: with stdout closed, the \<^verbatim>\<open>print\<close> of the \<^verbatim>\<open>except\<close> clause raises, the
  \<^verbatim>\<open>ValueError\<close> leaves \<^verbatim>\<open>publish\<close>, and the second subscriber of the alert is
  never asked.
\<close>

theorem filter_exception_isolated_counterexample:
  "priority_filter no_payload
       = Inl (Exception False
               (Inr (quoted ''NoneType'' @ '' object has no attribute '' @ quoted ''get'')))
   \<and> map sid (registered (subscribe SystemAlertEvent (LoggingHandler 5) main_bus)
        (etype no_payload)) = [3, 5]
   \<and> map_option snd (publish closed_stdout
        (subscribe SystemAlertEvent (LoggingHandler 5) main_bus) no_payload)
       = Some ([CanHandle 3, Filter 0],
               Inl (Exception False (Inr ''I/O operation on closed file.'')))"
  by (simp add: bus_defs ev_defs sub_defs run_defs registered_def priority_filter_def
      closed_stdout_def)

text \<open>
  C9, amended. The dispatch has got to its \<open>i\<close>-th candidate, which accepts the
  event itself; the filters before \<open>f\<close> return true and \<open>f\<close> raises. What reaches
  the \<^verbatim>\<open>except\<close> clause is what leaves the generator of the filters (a
  \<^verbatim>\<open>StopIteration\<close> arrives as a \<^verbatim>\<open>RuntimeError\<close>); it is an exception (an
  instance of \<^verbatim>\<open>Exception\<close>) whose error line can be made and printed. Then the
  event is not delivered to that candidate (its attempt is the call of
  \<^verbatim>\<open>can_handle\<close>, the calls of the filters up to the raising one, and the printed
  line: no call of \<^verbatim>\<open>handle\<close>, the bus as it was), \<^verbatim>\<open>publish\<close> ends as the loop
  from the next candidate on ends, the dispatch gets to the next candidate, and the
  remaining candidates are attempted as in C3.
\<close>

theorem filter_exception_isolated:
  assumes "dispatch_to out bus e i = Some (b, t)"
    and "subscribers b (etype e) = Some l" and "i < length l"
    and "can_handle (l ! i) e = Inr True"
    and "filters b (etype e) = Some (fs1 @ f # fs2)"
    and "\<forall>g \<in> set fs1. g e = Inr True"
    and "f e = Inl x"
    and "generator_raise x = Exception si (Inr m)"
    and "out (error_line e m) = None"
  shows "publish_body out b e (l ! i)
           = (b, CanHandle (sid (l ! i)) # map Filter [0 ..< Suc (length fs1)]
                   @ [Print (error_line e m)], Inr ())
         \<and> publish out bus e
           = Option.bind (publish_loop out b e (Suc i))
               (\<lambda>(b', t', r).
                  Some (b',
                        t @ (CanHandle (sid (l ! i)) # map Filter [0 ..< Suc (length fs1)]
                               @ [Print (error_line e m)]) @ t',
                        r))
         \<and> dispatch_to out bus e (Suc i)
             = Some (b, t @ CanHandle (sid (l ! i)) # map Filter [0 ..< Suc (length fs1)]
                          @ [Print (error_line e m)])
         \<and> (\<forall>b' t'. publish_loop out b e (Suc i) = Some (b', t', Inr ())
               \<longrightarrow> can_handle_calls t' = map sid (drop (Suc i) (registered b' (etype e))))
         \<and> (\<forall>b' s'. accepted b' e s'
               \<longrightarrow> Handle (sid s') \<in> set (fst (snd (publish_body out b' e s'))))"
proof -
  have af: "all_filters (fs1 @ f # fs2) 0 e
      = (map Filter [0 ..< Suc (length fs1)], Inl (Exception si (Inr m)))"
    using assms(6,7,8) all_filters_raise [where ?fs1.0=fs1 and f=f and e=e and ?fs2.0=fs2
        and k=0 and x=x]
    by simp
  have body: "publish_body out b e (l ! i)
      = (b, CanHandle (sid (l ! i)) # map Filter [0 ..< Suc (length fs1)]
              @ [Print (error_line e m)], Inr ())"
    using assms(4,5,9) af by (simp add: publish_body_def publish_try_def should_handle_def)
  from dispatch_step [OF assms(1,2,3) body]
  have p: "publish out bus e
           = Option.bind (publish_loop out b e (Suc i))
               (\<lambda>(b', t', r).
                  Some (b',
                        t @ (CanHandle (sid (l ! i)) # map Filter [0 ..< Suc (length fs1)]
                               @ [Print (error_line e m)]) @ t',
                        r))" .
  from dispatch_to_Suc [OF assms(1,2,3) body]
  have d: "dispatch_to out bus e (Suc i)
             = Some (b, t @ CanHandle (sid (l ! i)) # map Filter [0 ..< Suc (length fs1)]
                          @ [Print (error_line e m)])" .
  from body p d rest_evaluated [of out b e "Suc i"] show ?thesis
    by (simp add: publish_body_Handle)
qed

theorem filter_exception_isolated_witness:
  "dispatch_to console (subscribe SystemAlertEvent (LoggingHandler 5) main_bus) no_payload 0
     = Some (subscribe SystemAlertEvent (LoggingHandler 5) main_bus, [])
   \<and> subscribers (subscribe SystemAlertEvent (LoggingHandler 5) main_bus) (etype no_payload)
       = Some [AlertHandler 3, LoggingHandler 5]
   \<and> can_handle (AlertHandler 3) no_payload = Inr True
   \<and> filters (subscribe SystemAlertEvent (LoggingHandler 5) main_bus) (etype no_payload)
       = Some ([] @ priority_filter # [])
   \<and> priority_filter no_payload
       = Inl (Exception False
               (Inr (quoted ''NoneType'' @ '' object has no attribute '' @ quoted ''get'')))
   \<and> map_option snd (publish console (subscribe SystemAlertEvent (LoggingHandler 5) main_bus)
        no_payload)
       = Some ([CanHandle 3, Filter 0,
           Print (''Error handling event no_payload: '' @ quoted ''NoneType''
                    @ '' object has no attribute '' @ quoted ''get''),
           CanHandle 5, Filter 0,
           Print (''Error handling event no_payload: '' @ quoted ''NoneType''
                    @ '' object has no attribute '' @ quoted ''get'')],
          Inr ())
   \<and> stop_filter tick = Inl (Exception True (Inr []))
   \<and> publish_body console (add_filter Event stop_filter trio_bus) tick (LoggingHandler 1)
       = (add_filter Event stop_filter trio_bus,
          [CanHandle 1, Filter 0,
           Print ''Error handling event tick: generator raised StopIteration''],
          Inr ())"
proof -
  let ?bus = "subscribe SystemAlertEvent (LoggingHandler 5) main_bus"
  let ?m = "quoted ''NoneType'' @ '' object has no attribute '' @ quoted ''get''"
  let ?l = "[AlertHandler 3, LoggingHandler 5]"
  have h1: "dispatch_to console ?bus no_payload 0 = Some (?bus, [])" by simp
  have h2: "subscribers ?bus (etype no_payload) = Some ?l"
    by (simp add: bus_defs ev_defs)
  have h3: "0 < length ?l" by simp
  have a4: "can_handle (AlertHandler 3) no_payload = Inr True"
    by (simp add: sub_defs ev_defs)
  then have h4: "can_handle (?l ! 0) no_payload = Inr True" by simp
  have h5: "filters ?bus (etype no_payload) = Some ([] @ priority_filter # [])"
    by (simp add: bus_defs ev_defs)
  have h6: "\<forall>g \<in> set []. g no_payload = Inr True" by simp
  have h7: "priority_filter no_payload = Inl (Exception False (Inr ?m))"
    by (simp add: priority_filter_def ev_defs)
  have h8: "generator_raise (Exception False (Inr ?m)) = Exception False (Inr ?m)" by simp
  have h9: "console (error_line no_payload ?m) = None" by (simp add: console_def)
  have rest: "publish_loop console ?bus no_payload (Suc 0)
      = Some (?bus, [CanHandle 5, Filter 0, Print (''Error handling event no_payload: '' @ ?m)],
              Inr ())"
    by (simp add: bus_defs ev_defs sub_defs run_defs priority_filter_def console_def)
  have logs: "sid (AlertHandler 3) = 3"
    "error_line no_payload ?m = ''Error handling event no_payload: '' @ ?m"
    by (simp_all add: sub_defs error_line_def ev_defs)
  from filter_exception_isolated [OF h1 h2 h3 h4 h5 h6 h7 h8 h9] rest logs
  have p: "map_option snd (publish console ?bus no_payload)
       = Some ([CanHandle 3, Filter 0, Print (''Error handling event no_payload: '' @ ?m),
           CanHandle 5, Filter 0, Print (''Error handling event no_payload: '' @ ?m)],
          Inr ())"
    by simp
  let ?bus2 = "add_filter Event stop_filter trio_bus"
  let ?l2 = "[LoggingHandler 1, FailingHandler 2 ''boom'', LoggingHandler 3]"
  have k1: "dispatch_to console ?bus2 tick 0 = Some (?bus2, [])" by simp
  have k2: "subscribers ?bus2 (etype tick) = Some ?l2"
    by (simp add: bus_defs ev_defs)
  have k3: "0 < length ?l2" by simp
  have k4: "can_handle (?l2 ! 0) tick = Inr True" by (simp add: sub_defs)
  have k5: "filters ?bus2 (etype tick) = Some ([] @ stop_filter # [])"
    by (simp add: bus_defs ev_defs)
  have k7: "stop_filter tick = Inl (Exception True (Inr []))" by (simp add: stop_filter_def)
  have k8: "generator_raise (Exception True (Inr []))
      = Exception False (Inr ''generator raised StopIteration'')" by simp
  have k9: "console (error_line tick ''generator raised StopIteration'') = None"
    by (simp add: console_def)
  have logs2: "sid (LoggingHandler 1) = 1"
    "error_line tick ''generator raised StopIteration''
       = ''Error handling event tick: generator raised StopIteration''"
    by (simp_all add: sub_defs error_line_def ev_defs)
  have k6: "\<forall>g \<in> set []. g tick = Inr True" by simp
  from filter_exception_isolated [OF k1 k2 k3 k4 k5 k6 k7 k8 k9] logs2
  have q: "publish_body console ?bus2 tick (LoggingHandler 1)
       = (?bus2, [CanHandle 1, Filter 0,
           Print ''Error handling event tick: generator raised StopIteration''], Inr ())"
    by simp
  from h1 h2 a4 h5 h7 p k7 q show ?thesis by blast
qed




end
